theory Spec2Isabelle
  imports Main "HOL-Library.Word"
begin

unbundle bit_operations_syntax

section \<open>Data model\<close>

text \<open>
  The development embeds \<^verbatim>\<open>source/NotifierBuilder.cpp\<close>. The class \<^verbatim>\<open>Inotify\<close> it
  delegates to, and the header declaring \<^verbatim>\<open>Event\<close>, \<^verbatim>\<open>Notification\<close>,
  \<^verbatim>\<open>FileSystemEvent\<close> and \<^verbatim>\<open>EventObserver\<close>, are not among the sources; what the
  builder needs of them is modelled from the specification, and every such definition
  says so.
\<close>

type_synonym fspath = string

text \<open>
  \<^verbatim>\<open>enum class Event : std::uint32_t\<close>: the builder converts in both directions with
  \<^verbatim>\<open>static_cast\<close> (to \<^verbatim>\<open>std::uint32_t\<close> in \<^verbatim>\<open>onEvent\<close>, from the record's mask in
  \<^verbatim>\<open>runOnce\<close>), so every 32-bit value is a value of the enumeration.
\<close>

type_synonym Event = "32 word"

text \<open>
  Modelled from the spec: the enumerator \<^verbatim>\<open>Event::close_nowrite\<close> (the header is
  missing; the unit tests name it). The kinds are bitmask-compatible, one bit each; the
  bit is the one of the kernel interface.
\<close>

definition Event_close_nowrite :: Event where
  "Event_close_nowrite = 0x10"

text \<open>
  Modelled from the spec: the enumerator \<^verbatim>\<open>Event::open\<close> (the header is missing; the
  unit tests name it), again with the bit of the kernel interface.
\<close>

definition Event_open :: Event where
  "Event_open = 0x20"

text \<open>\<^verbatim>\<open>Notification\<close>: \<^verbatim>\<open>runOnce\<close> fills its members \<^verbatim>\<open>event\<close> and \<^verbatim>\<open>path\<close>.\<close>

record Notification =
  event :: Event
  path :: fspath

text \<open>
  \<^verbatim>\<open>FileSystemEvent\<close>: \<^verbatim>\<open>runOnce\<close> reads its members \<^verbatim>\<open>mask\<close> and \<^verbatim>\<open>path\<close>
  (the fields carry a prefix here: \<open>mask\<close> is a constant of the word library).
\<close>

record FileSystemEvent =
  fse_mask :: "32 word"
  fse_path :: fspath

text \<open>
  \<^verbatim>\<open>EventObserver\<close> is a \<^verbatim>\<open>std::function<void(Notification)>\<close>: either empty
  (\<open>None\<close>; \<^verbatim>\<open>runOnce\<close> tests the fallback for it) or a callable. Callables are opaque
  values of a type \<open>'cb\<close>; what calling one does is recorded as an invocation, the
  callable together with its argument.
\<close>

type_synonym 'cb EventObserver = "'cb option"

type_synonym 'cb invocation = "'cb \<times> Notification"

text \<open>
  The exceptions: the two registration errors of the specification (section 7), and
  \<^verbatim>\<open>std::bad_function_call\<close>, which calling an empty \<^verbatim>\<open>std::function\<close> throws.
\<close>

datatype error = InvalidPathError | WatchCreationError | BadFunctionCall

section \<open>The collaborators of the builder\<close>

subsection \<open>External interfaces\<close>

type_synonym WatchHandle = int

text \<open>
  Modelled from the spec: a raw record of the event source (section 6): a watch handle,
  a bitmask of event kinds, an optional embedded name.
\<close>

record RawRecord =
  rr_handle :: WatchHandle
  rr_mask :: "32 word"
  rr_name :: "string option"

text \<open>Modelled from the spec: the errors of the watch-creation primitive (section 6).\<close>

datatype InstallError = NotFound | PermissionDenied | ResourceExhausted

text \<open>
  Modelled from the spec: the external collaborators a registration call meets
  (section 6): whether a path exists, whether it is a directory, the directories nested
  below one (what the traversal of the directory enumeration yields), and the
  watch-creation primitive \<open>install(path, eventMask)\<close>.
\<close>

record Environment =
  pathExists :: "fspath \<Rightarrow> bool"
  isDirectory :: "fspath \<Rightarrow> bool"
  nestedDirectories :: "fspath \<Rightarrow> fspath list"
  install :: "fspath \<Rightarrow> 32 word \<Rightarrow> InstallError + WatchHandle"

subsection \<open>The state of \<^verbatim>\<open>Inotify\<close>\<close>

text \<open>
  Modelled from the spec: the mode of an IgnoreRegistry entry (section 3), once or
  permanent.
\<close>

datatype IgnoreMode = Once | Permanent

text \<open>
  Modelled from the spec: the class \<^verbatim>\<open>Inotify\<close> behind \<^verbatim>\<open>mInotify\<close> (its source is
  missing). It holds the WatchTable entries \<open>(handle, path)\<close>; the IgnoreRegistry, a
  set of paths to suppress, each with the mode of its entry (section 3: a path has at
  most one entry, so that a path ignored once is suppressed for exactly one record, I4);
  the event mask that \<^verbatim>\<open>getEventMask\<close> and \<^verbatim>\<open>setEventMask\<close> access; the remainder
  of an earlier read, buffered for the next call (4.5); the stop flag of the
  CancellableEventLoop; and the batches of raw records the event source will still
  deliver, one batch per read. In a sequential run no read is in flight when
  \<^verbatim>\<open>stop()\<close> is called, so the states Stopping and Stopped of the loop coincide and one
  flag stands for both.
\<close>

record Inotify =
  watchTable :: "(WatchHandle \<times> fspath) list"
  ignoreRegistry :: "fspath \<rightharpoonup> IgnoreMode"
  mEventMask :: "32 word"
  mEventQueue :: "RawRecord list"
  mStopped :: bool
  eventSource :: "RawRecord list list"

text \<open>
  Modelled from the spec: the constructor of \<^verbatim>\<open>Inotify\<close>: nothing watched, nothing
  ignored, nothing buffered, running. The initial event mask and the records the event
  source will deliver are parameters.
\<close>

definition newInotify :: "32 word \<Rightarrow> RawRecord list list \<Rightarrow> Inotify" where
  "newInotify m src =
     \<lparr>watchTable = [], ignoreRegistry = Map.empty, mEventMask = m, mEventQueue = [],
      mStopped = False, eventSource = src\<rparr>"

text \<open>Modelled from the spec: \<^verbatim>\<open>Inotify::getEventMask\<close>, which \<^verbatim>\<open>onEvent\<close> calls.\<close>

definition getEventMask :: "Inotify \<Rightarrow> 32 word" where
  "getEventMask i = mEventMask i"

text \<open>Modelled from the spec: \<^verbatim>\<open>Inotify::setEventMask\<close>, which \<^verbatim>\<open>onEvent\<close> calls.\<close>

definition setEventMask :: "32 word \<Rightarrow> Inotify \<Rightarrow> Inotify" where
  "setEventMask m i = i\<lparr>mEventMask := m\<rparr>"

text \<open>
  Modelled from the spec: \<^verbatim>\<open>Inotify::hasStopped\<close>, the loop reporting that it has
  been stopped (4.5, 4.6).
\<close>

definition hasStopped :: "Inotify \<Rightarrow> bool" where
  "hasStopped i = mStopped i"

text \<open>
  Modelled from the spec: \<^verbatim>\<open>Inotify::stop\<close> (4.5): the loop leaves the state Running,
  whatever state it was in.
\<close>

definition Inotify_stop :: "Inotify \<Rightarrow> Inotify" where
  "Inotify_stop i = i\<lparr>mStopped := True\<rparr>"

subsection \<open>WatchTable and RecursiveWatchManager\<close>

text \<open>
  Modelled from the spec: \<open>add(path)\<close> of the WatchTable (4.1) installs a new watch
  and fails with \<open>WatchCreationError\<close> if the path does not exist or the primitive
  refuses. The new entry replaces any entry with the same handle or the same path, which
  keeps the table unique in both directions (I1).
\<close>

definition WatchTable_add :: "Environment \<Rightarrow> fspath \<Rightarrow> Inotify \<Rightarrow> error option \<times> Inotify" where
  "WatchTable_add env p i =
     (if \<not> pathExists env p then (Some WatchCreationError, i)
      else case install env p (mEventMask i) of
             Inl _ \<Rightarrow> (Some WatchCreationError, i)
           | Inr h \<Rightarrow>
               (None, i\<lparr>watchTable :=
                  (h, p) # filter (\<lambda>(h', p'). h' \<noteq> h \<and> p' \<noteq> p) (watchTable i)\<rparr>))"

text \<open>
  Modelled from the spec: \<open>remove(path)\<close> of the WatchTable (4.1) uninstalls the watch
  of a path, and is a no-op if the path has none.
\<close>

definition WatchTable_remove :: "fspath \<Rightarrow> Inotify \<Rightarrow> Inotify" where
  "WatchTable_remove p i = i\<lparr>watchTable := filter (\<lambda>(h', p'). p' \<noteq> p) (watchTable i)\<rparr>"

text \<open>
  Modelled from the spec: \<^verbatim>\<open>Inotify::watchFile\<close> (4.6, 7, 8) fails fast with
  \<open>InvalidPathError\<close> on a path that does not exist, and otherwise adds the watch.
\<close>

definition Inotify_watchFile :: "Environment \<Rightarrow> fspath \<Rightarrow> Inotify \<Rightarrow> error option \<times> Inotify" where
  "Inotify_watchFile env p i =
     (if \<not> pathExists env p then (Some InvalidPathError, i) else WatchTable_add env p i)"

text \<open>
  Modelled from the spec: the traversal of \<open>watchRecursively\<close> (4.3) installs a watch
  per directory and stops at the first installation that fails.
\<close>

fun addWatches :: "Environment \<Rightarrow> fspath list \<Rightarrow> Inotify \<Rightarrow> error option \<times> Inotify" where
  "addWatches env [] i = (None, i)"
| "addWatches env (p # ps) i =
     (case WatchTable_add env p i of
        (Some e, i') \<Rightarrow> (Some e, i')
      | (None, i') \<Rightarrow> addWatches env ps i')"

text \<open>
  Modelled from the spec: \<^verbatim>\<open>Inotify::watchDirectoryRecursively\<close>, the
  \<open>watchRecursively(rootPath)\<close> of 4.3: it fails with \<open>InvalidPathError\<close> if the root
  does not exist or is not a directory; otherwise it installs a watch on the root and on
  every nested directory, and fails with \<open>WatchCreationError\<close> if one installation
  fails. The watches of a failed call are rolled back (the spec leaves the choice open).
\<close>

definition Inotify_watchDirectoryRecursively ::
  "Environment \<Rightarrow> fspath \<Rightarrow> Inotify \<Rightarrow> error option \<times> Inotify" where
  "Inotify_watchDirectoryRecursively env p i =
     (if \<not> pathExists env p \<or> \<not> isDirectory env p then (Some InvalidPathError, i)
      else case addWatches env (p # nestedDirectories env p) i of
             (Some e, _) \<Rightarrow> (Some e, i)
           | (None, i') \<Rightarrow> (None, i'))"

text \<open>
  Modelled from the spec: \<^verbatim>\<open>Inotify::unwatchFile\<close> (4.6): like every registration
  method it fails fast with \<open>InvalidPathError\<close> on a path that does not exist;
  otherwise it removes the watch of the path.
\<close>

definition Inotify_unwatchFile :: "Environment \<Rightarrow> fspath \<Rightarrow> Inotify \<Rightarrow> error option \<times> Inotify" where
  "Inotify_unwatchFile env p i =
     (if \<not> pathExists env p then (Some InvalidPathError, i) else (None, WatchTable_remove p i))"

subsection \<open>IgnoreRegistry\<close>

text \<open>
  Modelled from the spec: \<open>ignoreOnce(path)\<close> of the IgnoreRegistry (4.2) adds an
  entry; it becomes the entry of the path.
\<close>

definition ignoreOnce :: "fspath \<Rightarrow> Inotify \<Rightarrow> Inotify" where
  "ignoreOnce p i = i\<lparr>ignoreRegistry := (ignoreRegistry i)(p \<mapsto> Once)\<rparr>"

text \<open>
  Modelled from the spec: \<open>ignorePermanently(path)\<close> of the IgnoreRegistry (4.2) adds
  an entry; it becomes the entry of the path.
\<close>

definition ignorePermanently :: "fspath \<Rightarrow> Inotify \<Rightarrow> Inotify" where
  "ignorePermanently p i = i\<lparr>ignoreRegistry := (ignoreRegistry i)(p \<mapsto> Permanent)\<rparr>"


text \<open>
  Modelled from the spec: \<open>shouldSuppress(path)\<close> of the IgnoreRegistry (4.2) checks
  the path and, for a once-entry, consumes the match as part of the check; a permanent
  entry persists.
\<close>

definition shouldSuppress :: "fspath \<Rightarrow> Inotify \<Rightarrow> bool \<times> Inotify" where
  "shouldSuppress p i =
     (case ignoreRegistry i p of
        Some Once \<Rightarrow> (True, i\<lparr>ignoreRegistry := (ignoreRegistry i)(p := None)\<rparr>)
      | Some Permanent \<Rightarrow> (True, i)
      | None \<Rightarrow> (False, i))"

text \<open>
  Modelled from the spec: \<^verbatim>\<open>Inotify::ignoreFileOnce\<close> (4.6): it fails fast with
  \<open>InvalidPathError\<close> on a path that does not exist, and otherwise adds a once-entry.
\<close>

definition Inotify_ignoreFileOnce :: "Environment \<Rightarrow> fspath \<Rightarrow> Inotify \<Rightarrow> error option \<times> Inotify" where
  "Inotify_ignoreFileOnce env p i =
     (if \<not> pathExists env p then (Some InvalidPathError, i) else (None, ignoreOnce p i))"

text \<open>
  Modelled from the spec: \<^verbatim>\<open>Inotify::ignoreFile\<close> (4.6): it fails fast with
  \<open>InvalidPathError\<close> on a path that does not exist, and otherwise adds a permanent
  entry.
\<close>

definition Inotify_ignoreFile :: "Environment \<Rightarrow> fspath \<Rightarrow> Inotify \<Rightarrow> error option \<times> Inotify" where
  "Inotify_ignoreFile env p i =
     (if \<not> pathExists env p then (Some InvalidPathError, i) else (None, ignorePermanently p i))"

subsection \<open>EventTranslator\<close>

text \<open>Modelled from the spec: the three results of \<open>translate\<close> (4.4).\<close>

datatype Translation = Dispatchable FileSystemEvent | Suppressed | Unresolvable

text \<open>
  Modelled from the spec: joining the watched directory's path with the record's
  embedded name (section 3).
\<close>

definition joinPath :: "fspath \<Rightarrow> string \<Rightarrow> fspath" where
  "joinPath dir n = dir @ ''/'' @ n"

text \<open>
  Modelled from the spec: the path a record is about (4.4): the path its handle resolves
  to in the WatchTable, joined with the embedded name when there is one; none if the
  handle does not resolve.
\<close>

definition fullPath :: "Inotify \<Rightarrow> RawRecord \<Rightarrow> fspath option" where
  "fullPath i r =
     (case map_of (watchTable i) (rr_handle r) of
        None \<Rightarrow> None
      | Some dir \<Rightarrow> Some (case rr_name r of None \<Rightarrow> dir | Some n \<Rightarrow> joinPath dir n))"

text \<open>
  Modelled from the spec: the bits of a record's bitmask, lowest first. The kinds are
  bitmask-compatible (section 3): each kind is one bit.
\<close>

definition kindBits :: "Event list" where
  "kindBits =
     [0x1, 0x2, 0x4, 0x8, 0x10, 0x20, 0x40, 0x80,
      0x100, 0x200, 0x400, 0x800, 0x1000, 0x2000, 0x4000, 0x8000,
      0x10000, 0x20000, 0x40000, 0x80000, 0x100000, 0x200000, 0x400000, 0x800000,
      0x1000000, 0x2000000, 0x4000000, 0x8000000, 0x10000000, 0x20000000, 0x40000000, 0x80000000]"

text \<open>
  Modelled from the spec: the first of the given kinds that a bitmask signals, and no
  kind (0) if it signals none of them.
\<close>

fun firstSignalled :: "Event list \<Rightarrow> 32 word \<Rightarrow> Event" where
  "firstSignalled [] m = 0"
| "firstSignalled (k # ks) m = (if m AND k \<noteq> 0 then k else firstSignalled ks m)"

text \<open>
  Modelled from the spec: the primary kind of a record (section 3): a record may signal
  several kinds, and the engine treats one of them, its primary kind, for routing. The
  spec does not say which of the signalled kinds that is; the model takes the one with
  the lowest bit.
\<close>

definition primaryKind :: "32 word \<Rightarrow> Event" where
  "primaryKind m = firstSignalled kindBits m"

text \<open>
  Modelled from the spec: \<open>translate(rawRecord)\<close> (4.4): resolve the handle, else
  \<open>Unresolvable\<close>; compute the full path; consult the IgnoreRegistry, and if
  suppressed return \<open>Suppressed\<close>; otherwise produce the notification
  \<open>{kind, fullPath}\<close>, whose kind is the record's primary kind. Reconciling the
  watches of a recursively watched tree on create and delete records (4.3) is left out:
  nothing below depends on it.
\<close>

definition translate :: "RawRecord \<Rightarrow> Inotify \<Rightarrow> Translation \<times> Inotify" where
  "translate r i =
     (case fullPath i r of
        None \<Rightarrow> (Unresolvable, i)
      | Some p \<Rightarrow>
          (case shouldSuppress p i of
             (True, i') \<Rightarrow> (Suppressed, i')
           | (False, i') \<Rightarrow>
               (Dispatchable \<lparr>fse_mask = primaryKind (rr_mask r), fse_path = p\<rparr>, i')))"

text \<open>
  Modelled from the spec: translating raw records in their order up to the first
  dispatchable notification (4.5); the result is that notification, if there is one, the
  records after it, and the state.
\<close>

fun firstDispatchable ::
  "RawRecord list \<Rightarrow> Inotify \<Rightarrow> FileSystemEvent option \<times> RawRecord list \<times> Inotify" where
  "firstDispatchable [] i = (None, [], i)"
| "firstDispatchable (r # rs) i =
     (case translate r i of
        (Dispatchable e, i') \<Rightarrow> (Some e, rs, i')
      | (_, i') \<Rightarrow> firstDispatchable rs i')"

subsection \<open>CancellableEventLoop\<close>

text \<open>
  Modelled from the spec: \<^verbatim>\<open>Inotify::getNextEvent\<close>, the \<open>nextEvent()\<close> of 4.5: it
  returns no event if the loop has been asked to stop. Otherwise it translates the
  remainder buffered by an earlier call; if that holds no dispatchable notification it
  performs exactly one blocking read and translates the batch. It returns the first
  dispatchable notification and buffers the remainder for the next call. The outer
  \<open>option\<close> is whether the call returns at all: with the source exhausted and the
  loop running, the blocking read of a sequential run waits forever (\<open>None\<close>).
\<close>

definition getNextEvent :: "Inotify \<Rightarrow> (FileSystemEvent option \<times> Inotify) option" where
  "getNextEvent i =
     (if mStopped i then Some (None, i)
      else case firstDispatchable (mEventQueue i) i of
             (Some e, rest, i') \<Rightarrow> Some (Some e, i'\<lparr>mEventQueue := rest\<rparr>)
           | (None, _, i') \<Rightarrow>
               (case eventSource i' of
                  [] \<Rightarrow> None
                | b # bs \<Rightarrow>
                    (case firstDispatchable b (i'\<lparr>eventSource := bs\<rparr>) of
                       (e, rest, i'') \<Rightarrow> Some (e, i''\<lparr>mEventQueue := rest\<rparr>))))"

section \<open>NotifierBuilder\<close>

record 'cb NotifierBuilder =
  mInotify :: Inotify
  mEventObserver :: "Event \<rightharpoonup> 'cb EventObserver"
  mUnexpectedEventObserver :: "'cb EventObserver"

text \<open>
  The constructor: a fresh \<^verbatim>\<open>Inotify\<close> (a parameter here), no observers. The methods
  that return \<^verbatim>\<open>NotifierBuilder&\<close> return \<^verbatim>\<open>*this\<close>: the model returns the state of
  the receiver after the call, together with the exception the call raised, if any.
\<close>

definition BuildNotifier :: "Inotify \<Rightarrow> 'cb NotifierBuilder" where
  "BuildNotifier i = \<lparr>mInotify = i, mEventObserver = Map.empty, mUnexpectedEventObserver = None\<rparr>"

text \<open>A call through \<^verbatim>\<open>mInotify->\<close>: the receiver keeps its other members.\<close>

definition onInotify ::
  "(Inotify \<Rightarrow> error option \<times> Inotify) \<Rightarrow> 'cb NotifierBuilder \<Rightarrow> error option \<times> 'cb NotifierBuilder" where
  "onInotify f nb = (case f (mInotify nb) of (e, i') \<Rightarrow> (e, nb\<lparr>mInotify := i'\<rparr>))"

definition watchPathRecursively ::
  "Environment \<Rightarrow> fspath \<Rightarrow> 'cb NotifierBuilder \<Rightarrow> error option \<times> 'cb NotifierBuilder" where
  "watchPathRecursively env p nb = onInotify (Inotify_watchDirectoryRecursively env p) nb"

definition watchFile ::
  "Environment \<Rightarrow> fspath \<Rightarrow> 'cb NotifierBuilder \<Rightarrow> error option \<times> 'cb NotifierBuilder" where
  "watchFile env file nb = onInotify (Inotify_watchFile env file) nb"

definition unwatchFile ::
  "Environment \<Rightarrow> fspath \<Rightarrow> 'cb NotifierBuilder \<Rightarrow> error option \<times> 'cb NotifierBuilder" where
  "unwatchFile env file nb = onInotify (Inotify_unwatchFile env file) nb"

definition ignoreFileOnce ::
  "Environment \<Rightarrow> fspath \<Rightarrow> 'cb NotifierBuilder \<Rightarrow> error option \<times> 'cb NotifierBuilder" where
  "ignoreFileOnce env file nb = onInotify (Inotify_ignoreFileOnce env file) nb"

definition ignoreFile ::
  "Environment \<Rightarrow> fspath \<Rightarrow> 'cb NotifierBuilder \<Rightarrow> error option \<times> 'cb NotifierBuilder" where
  "ignoreFile env file nb = onInotify (Inotify_ignoreFile env file) nb"

definition onEvent :: "Event \<Rightarrow> 'cb EventObserver \<Rightarrow> 'cb NotifierBuilder \<Rightarrow> 'cb NotifierBuilder" where
  "onEvent ev eventObserver nb =
     nb\<lparr>mInotify := setEventMask (getEventMask (mInotify nb) OR ev) (mInotify nb),
        mEventObserver := (mEventObserver nb)(ev \<mapsto> eventObserver)\<rparr>"

text \<open>The loop of \<^verbatim>\<open>onEvents\<close> over the vector, its body as the source writes it.\<close>

fun onEvents :: "Event list \<Rightarrow> 'cb EventObserver \<Rightarrow> 'cb NotifierBuilder \<Rightarrow> 'cb NotifierBuilder" where
  "onEvents [] eventObserver nb = nb"
| "onEvents (ev # events) eventObserver nb =
     onEvents events eventObserver
       (nb\<lparr>mInotify := setEventMask (getEventMask (mInotify nb) OR ev) (mInotify nb),
           mEventObserver := (mEventObserver nb)(ev \<mapsto> eventObserver)\<rparr>)"

definition onUnexpectedEvent :: "'cb EventObserver \<Rightarrow> 'cb NotifierBuilder \<Rightarrow> 'cb NotifierBuilder" where
  "onUnexpectedEvent eventObserver nb = nb\<lparr>mUnexpectedEventObserver := eventObserver\<rparr>"

text \<open>
  \<^verbatim>\<open>runOnce\<close>: the result is \<open>None\<close> if \<^verbatim>\<open>getNextEvent\<close> never returns, and
  otherwise the exception raised (calling an empty \<^verbatim>\<open>std::function\<close> found in the map
  throws), the invocations made, and the state afterwards. Callbacks are taken to return
  normally and to leave the notifier alone.
\<close>

type_synonym 'cb outcome = "error option \<times> 'cb invocation list \<times> 'cb NotifierBuilder"

definition runOnce :: "'cb NotifierBuilder \<Rightarrow> 'cb outcome option" where
  "runOnce nb =
     (case getNextEvent (mInotify nb) of
        None \<Rightarrow> None
      | Some (None, i') \<Rightarrow> Some (None, [], nb\<lparr>mInotify := i'\<rparr>)
      | Some (Some fileSystemEvent, i') \<Rightarrow>
          (let ev = fse_mask fileSystemEvent;
               notification = \<lparr>event = ev, path = fse_path fileSystemEvent\<rparr>;
               nb' = nb\<lparr>mInotify := i'\<rparr>
           in case mEventObserver nb ev of
                None \<Rightarrow>
                  (case mUnexpectedEventObserver nb of
                     Some cb \<Rightarrow> Some (None, [(cb, notification)], nb')
                   | None \<Rightarrow> Some (None, [], nb'))
              | Some None \<Rightarrow> Some (Some BadFunctionCall, [], nb')
              | Some (Some eventObserver) \<Rightarrow> Some (None, [(eventObserver, notification)], nb')))"

definition stop :: "'cb NotifierBuilder \<Rightarrow> 'cb NotifierBuilder" where
  "stop nb = nb\<lparr>mInotify := Inotify_stop (mInotify nb)\<rparr>"

text \<open>
  \<^verbatim>\<open>run\<close>: the loop may go on forever, or hang in a read; \<open>None\<close> is not returning.
  The invocations of the iterations accumulate in \<open>tr\<close>; an exception ends the loop.
\<close>

partial_function (option) runLoop ::
  "'cb invocation list \<Rightarrow> 'cb NotifierBuilder \<Rightarrow> 'cb outcome option" where
  "runLoop tr nb =
     (if hasStopped (mInotify nb) then Some (None, tr, nb)
      else case runOnce nb of
             None \<Rightarrow> None
           | Some (Some e, tr', nb') \<Rightarrow> Some (Some e, tr @ tr', nb')
           | Some (None, tr', nb') \<Rightarrow> runLoop (tr @ tr') nb')"

definition run :: "'cb NotifierBuilder \<Rightarrow> 'cb outcome option" where
  "run nb = runLoop [] nb"

section \<open>Sequences of calls\<close>

text \<open>
  The calls a client can make on a notifier. A call that touches the filesystem carries
  the environment it meets. \<open>perform\<close> gives the state of the notifier once the call
  has returned, normally or with an exception, and \<open>None\<close> if it never returns.
\<close>

datatype 'cb Operation =
    WatchPathRecursively Environment fspath
  | WatchFile Environment fspath
  | UnwatchFile Environment fspath
  | IgnoreFileOnce Environment fspath
  | IgnoreFile Environment fspath
  | OnEvent Event "'cb EventObserver"
  | OnEvents "Event list" "'cb EventObserver"
  | OnUnexpectedEvent "'cb EventObserver"
  | RunOnce
  | Run
  | Stop

fun perform :: "'cb Operation \<Rightarrow> 'cb NotifierBuilder \<Rightarrow> 'cb NotifierBuilder option" where
  "perform (WatchPathRecursively env p) nb = Some (snd (watchPathRecursively env p nb))"
| "perform (WatchFile env p) nb = Some (snd (watchFile env p nb))"
| "perform (UnwatchFile env p) nb = Some (snd (unwatchFile env p nb))"
| "perform (IgnoreFileOnce env p) nb = Some (snd (ignoreFileOnce env p nb))"
| "perform (IgnoreFile env p) nb = Some (snd (ignoreFile env p nb))"
| "perform (OnEvent k f) nb = Some (onEvent k f nb)"
| "perform (OnEvents ks f) nb = Some (onEvents ks f nb)"
| "perform (OnUnexpectedEvent f) nb = Some (onUnexpectedEvent f nb)"
| "perform RunOnce nb = map_option (\<lambda>out. snd (snd out)) (runOnce nb)"
| "perform Run nb = map_option (\<lambda>out. snd (snd out)) (run nb)"
| "perform Stop nb = Some (stop nb)"

fun performAll :: "'cb Operation list \<Rightarrow> 'cb NotifierBuilder \<Rightarrow> 'cb NotifierBuilder option" where
  "performAll [] nb = Some nb"
| "performAll (c # cs) nb =
     (case perform c nb of None \<Rightarrow> None | Some nb' \<Rightarrow> performAll cs nb')"



section \<open>Notions of the statements\<close>

text \<open>A value of the enumeration that names one kind: exactly one bit is set.\<close>

definition singleKind :: "Event \<Rightarrow> bool" where
  "singleKind e = (e \<in> set kindBits)"

text \<open>Two states of a notifier with the same callback registrations.\<close>

definition sameRegistrations :: "'cb NotifierBuilder \<Rightarrow> 'cb NotifierBuilder \<Rightarrow> bool" where
  "sameRegistrations a b =
     (mEventObserver a = mEventObserver b \<and>
      mUnexpectedEventObserver a = mUnexpectedEventObserver b)"

text \<open>The raw records the loop has not translated yet: the buffered ones, then the source's.\<close>

definition pendingRecords :: "Inotify \<Rightarrow> RawRecord list" where
  "pendingRecords i = mEventQueue i @ concat (eventSource i)"









section \<open>The fixture of the unit tests\<close>

text \<open>
  The unit tests work in a directory \<^verbatim>\<open>testDirectory\<close> that holds a file
  \<^verbatim>\<open>test.txt\<close>; no other path exists. The kernel hands out handle 1 for the directory
  and handle 2 for the file.
\<close>

definition testDirectory :: fspath where
  "testDirectory = ''testDirectory''"

definition testFile :: fspath where
  "testFile = ''testDirectory/test.txt''"

definition testEnv :: Environment where
  "testEnv =
     \<lparr>pathExists = (\<lambda>p. p = testDirectory \<or> p = testFile),
      isDirectory = (\<lambda>p. p = testDirectory),
      nestedDirectories = (\<lambda>p. []),
      install = (\<lambda>p m. if p = testDirectory then Inr 1 else if p = testFile then Inr 2
                          else Inl NotFound)\<rparr>"

text \<open>A raw record about the test file itself, with the given bits.\<close>

definition onTestFile :: "32 word \<Rightarrow> RawRecord" where
  "onTestFile m = \<lparr>rr_handle = 2, rr_mask = m, rr_name = None\<rparr>"

text \<open>A notifier that watches the test file, over a source that will deliver \<open>src\<close>.\<close>

definition watchingTestFile :: "RawRecord list list \<Rightarrow> string NotifierBuilder" where
  "watchingTestFile src = snd (watchFile testEnv testFile (BuildNotifier (newInotify 0 src)))"

text \<open>The same with a callback for \<^verbatim>\<open>Event::open\<close>, as the tests register it.\<close>

definition notifyingOnOpen :: "RawRecord list list \<Rightarrow> string NotifierBuilder" where
  "notifyingOnOpen src = onEvent Event_open (Some ''onOpen'') (watchingTestFile src)"

text \<open>
  A bitmask that signals two kinds at once, and a notifier with one callback for each of
  the two.
\<close>

definition openAndCloseNoWrite :: "32 word" where
  "openAndCloseNoWrite = Event_open OR Event_close_nowrite"

definition twoObservers :: "RawRecord list list \<Rightarrow> string NotifierBuilder" where
  "twoObservers src =
     onEvent Event_close_nowrite (Some ''onCloseNoWrite'') (notifyingOnOpen src)"


section \<open>Facts about the fixture\<close>

lemma watchingTestFile_state:
  "watchingTestFile src =
     \<lparr>mInotify = \<lparr>watchTable = [(2, ''testDirectory/test.txt'')],
                    ignoreRegistry = Map.empty,
                    mEventMask = 0, mEventQueue = [], mStopped = False, eventSource = src\<rparr>,
      mEventObserver = Map.empty, mUnexpectedEventObserver = None\<rparr>"
  by (simp add: watchingTestFile_def watchFile_def onInotify_def Inotify_watchFile_def
      WatchTable_add_def testEnv_def testFile_def testDirectory_def BuildNotifier_def
      newInotify_def)

lemmas fixture_defs =
  watchingTestFile_state notifyingOnOpen_def onEvent_def onUnexpectedEvent_def
  setEventMask_def getEventMask_def testFile_def onTestFile_def Event_open_def
  Event_close_nowrite_def

lemmas combined_defs = twoObservers_def openAndCloseNoWrite_def

lemmas reading_defs =
  getNextEvent_def translate_def fullPath_def shouldSuppress_def primaryKind_def kindBits_def

section \<open>Registration\<close>

lemma mEventObserver_onEvents:
  "mEventObserver (onEvents ks f nb) k = (if k \<in> set ks then Some f else mEventObserver nb k)"
  by (induction ks arbitrary: nb) auto

lemma onEvent_onEvents: "onEvent k f nb = onEvents [k] f nb"
  by (simp add: onEvent_def)

lemma runOnce_registered:
  assumes "getNextEvent (mInotify nb) = Some (Some fse, i')"
      and "mEventObserver nb (fse_mask fse) = Some (Some f)"
  shows "runOnce nb =
           Some (None, [(f, \<lparr>event = fse_mask fse, path = fse_path fse\<rparr>)], nb\<lparr>mInotify := i'\<rparr>)"
  using assms by (simp add: runOnce_def)

text \<open>
  C8: \<^verbatim>\<open>onEvents(ks, f)\<close> leaves the notifier in exactly the state that calling
  \<^verbatim>\<open>onEvent(k, f)\<close> for each \<open>k\<close> of \<open>ks\<close> in order produces: the same observer
  map, the same accumulated event mask, and the same everything else.
\<close>

theorem onEvents_is_iterated_onEvent:
  "onEvents ks f nb = foldl (\<lambda>s k. onEvent k f s) nb ks"
  by (induction ks arbitrary: nb) (simp_all add: onEvent_def)

text \<open>
  C7: when a callback \<open>f\<close> and then a callback \<open>g\<close> are registered for a kind \<open>k\<close>,
  each through \<^verbatim>\<open>onEvent\<close> or through \<^verbatim>\<open>onEvents\<close> with a list that holds \<open>k\<close>,
  the observer map has \<open>g\<close> as its entry for \<open>k\<close>, and \<^verbatim>\<open>runOnce\<close> on an event of
  kind \<open>k\<close> makes one invocation, of \<open>g\<close>: the last registration wins.
\<close>

theorem last_registration_wins:
  assumes r1: "r1 = onEvent k f \<or> (r1 = onEvents ks1 f \<and> k \<in> set ks1)"
      and r2: "r2 = onEvent k (Some g) \<or> (r2 = onEvents ks2 (Some g) \<and> k \<in> set ks2)"
      and nb': "nb' = r2 (r1 nb)"
  shows "mEventObserver nb' k = Some (Some g) \<and>
         (\<forall>fse i'. getNextEvent (mInotify nb') = Some (Some fse, i') \<and> fse_mask fse = k \<longrightarrow>
            runOnce nb' =
              Some (None, [(g, \<lparr>event = k, path = fse_path fse\<rparr>)], nb'\<lparr>mInotify := i'\<rparr>))"
proof -
  have "mEventObserver nb' k = Some (Some g)"
    using r2 nb' by (auto simp: onEvent_onEvents mEventObserver_onEvents)
  then show ?thesis
    by (auto simp: runOnce_registered)
qed

theorem last_registration_wins_witness:
  "Event_open \<in> set [Event_close_nowrite, Event_open] \<and>
   mEventObserver
     (onEvents [Event_close_nowrite, Event_open] (Some ''g'')
        (onEvent Event_open (Some ''f'') (watchingTestFile [[onTestFile Event_open]])))
     Event_open = Some (Some ''g'') \<and>
   runOnce
     (onEvents [Event_close_nowrite, Event_open] (Some ''g'')
        (onEvent Event_open (Some ''f'') (watchingTestFile [[onTestFile Event_open]]))) =
     Some (None, [(''g'', \<lparr>event = Event_open, path = testFile\<rparr>)],
           onEvents [Event_close_nowrite, Event_open] (Some ''g'')
             (onEvent Event_open (Some ''f'') (watchingTestFile [])))"
  using last_registration_wins
    [of "onEvent Event_open (Some ''f'')" Event_open "Some ''f''" "[]"
        "onEvents [Event_close_nowrite, Event_open] (Some ''g'')" "''g''"
        "[Event_close_nowrite, Event_open]"
        "onEvents [Event_close_nowrite, Event_open] (Some ''g'')
           (onEvent Event_open (Some ''f'') (watchingTestFile [[onTestFile Event_open]]))"
        "watchingTestFile [[onTestFile Event_open]]"]
  by (simp add: fixture_defs reading_defs)

section \<open>Dispatch\<close>

text \<open>
  C1: every call of \<^verbatim>\<open>runOnce\<close> pulls exactly one event from the loop: it returns iff
  the one call of \<^verbatim>\<open>getNextEvent\<close> returns, and leaves the loop in the state that
  call left it in. If an event was obtained and a callback is registered for its kind,
  the call makes exactly one invocation: of that callback, with a notification whose
  event is the record's kind and whose path is the record's path.
\<close>

theorem runOnce_pulls_one_event:
  "(case getNextEvent (mInotify nb) of
      None \<Rightarrow> runOnce nb = None
    | Some (ev, i') \<Rightarrow>
        (\<exists>e tr. runOnce nb = Some (e, tr, nb\<lparr>mInotify := i'\<rparr>)) \<and>
        (\<forall>fse f. ev = Some fse \<longrightarrow> mEventObserver nb (fse_mask fse) = Some (Some f) \<longrightarrow>
           runOnce nb =
             Some (None, [(f, \<lparr>event = fse_mask fse, path = fse_path fse\<rparr>)],
                   nb\<lparr>mInotify := i'\<rparr>)))"
  by (auto simp: runOnce_def Let_def split: option.splits)

theorem runOnce_pulls_one_event_witness:
  "getNextEvent (mInotify (notifyingOnOpen [[onTestFile Event_open]])) =
     Some (Some \<lparr>fse_mask = Event_open, fse_path = testFile\<rparr>, mInotify (notifyingOnOpen [])) \<and>
   mEventObserver (notifyingOnOpen [[onTestFile Event_open]]) Event_open = Some (Some ''onOpen'') \<and>
   runOnce (notifyingOnOpen [[onTestFile Event_open]]) =
     Some (None, [(''onOpen'', \<lparr>event = Event_open, path = testFile\<rparr>)], notifyingOnOpen [])"
  using runOnce_pulls_one_event [of "notifyingOnOpen [[onTestFile Event_open]]"]
  by (simp add: fixture_defs reading_defs)

text \<open>
  C3: when the kind of the event obtained has no registered callback, \<^verbatim>\<open>runOnce\<close>
  makes exactly one invocation, of the fallback with that notification, if a fallback is
  registered, and no invocation at all if none is; either way it returns normally.
\<close>

theorem runOnce_unregistered_kind:
  assumes "getNextEvent (mInotify nb) = Some (Some fse, i')"
      and "mEventObserver nb (fse_mask fse) = None"
  shows "runOnce nb =
           Some (None,
                 (case mUnexpectedEventObserver nb of
                    Some fallback \<Rightarrow> [(fallback, \<lparr>event = fse_mask fse, path = fse_path fse\<rparr>)]
                  | None \<Rightarrow> []),
                 nb\<lparr>mInotify := i'\<rparr>)"
  using assms by (simp add: runOnce_def split: option.splits)

theorem runOnce_unregistered_kind_witness:
  "runOnce (onUnexpectedEvent (Some ''fallback'') (watchingTestFile [[onTestFile Event_open]])) =
     Some (None, [(''fallback'', \<lparr>event = Event_open, path = testFile\<rparr>)],
           onUnexpectedEvent (Some ''fallback'') (watchingTestFile [])) \<and>
   runOnce (watchingTestFile [[onTestFile Event_open]]) = Some (None, [], watchingTestFile [])"
  using runOnce_unregistered_kind
    [of "onUnexpectedEvent (Some ''fallback'') (watchingTestFile [[onTestFile Event_open]])"
        "\<lparr>fse_mask = Event_open, fse_path = testFile\<rparr>"
        "mInotify (watchingTestFile [])"]
    runOnce_unregistered_kind
    [of "watchingTestFile [[onTestFile Event_open]]"
        "\<lparr>fse_mask = Event_open, fse_path = testFile\<rparr>"
        "mInotify (watchingTestFile [])"]
  by (simp add: fixture_defs reading_defs)

section \<open>What a call leaves alone\<close>

lemma onInotify_observers:
  "mEventObserver (snd (onInotify f nb)) = mEventObserver nb \<and>
   mUnexpectedEventObserver (snd (onInotify f nb)) = mUnexpectedEventObserver nb"
  by (simp add: onInotify_def split: prod.splits)

lemma runOnce_observers:
  assumes "runOnce nb = Some out"
  shows "mEventObserver (snd (snd out)) = mEventObserver nb \<and>
         mUnexpectedEventObserver (snd (snd out)) = mUnexpectedEventObserver nb"
  using assms by (auto simp: runOnce_def Let_def split: option.splits)

lemma runLoop_observers:
  assumes "runLoop tr nb = Some out"
  shows "mEventObserver (snd (snd out)) = mEventObserver nb \<and>
         mUnexpectedEventObserver (snd (snd out)) = mUnexpectedEventObserver nb"
proof (rule runLoop.raw_induct
    [where P = "\<lambda>tr nb out. mEventObserver (snd (snd out)) = mEventObserver nb \<and>
                  mUnexpectedEventObserver (snd (snd out)) = mUnexpectedEventObserver nb",
     OF _ assms])
  fix rl :: "'a invocation list \<Rightarrow> 'a NotifierBuilder \<Rightarrow> 'a outcome option"
  fix tr nb out
  assume IH: "\<And>tr nb out. rl tr nb = Some out \<Longrightarrow>
                mEventObserver (snd (snd out)) = mEventObserver nb \<and>
                mUnexpectedEventObserver (snd (snd out)) = mUnexpectedEventObserver nb"
    and body: "(if hasStopped (mInotify nb) then Some (None, tr, nb)
                else case runOnce nb of
                       None \<Rightarrow> None
                     | Some (None, tr', nb') \<Rightarrow> rl (tr @ tr') nb'
                     | Some (Some e, tr', nb') \<Rightarrow> Some (Some e, tr @ tr', nb')) = Some out"
  show "mEventObserver (snd (snd out)) = mEventObserver nb \<and>
        mUnexpectedEventObserver (snd (snd out)) = mUnexpectedEventObserver nb"
  proof (cases "hasStopped (mInotify nb)")
    case True
    with body show ?thesis by auto
  next
    case False
    with body obtain e1 tr1 nb1 where ro: "runOnce nb = Some (e1, tr1, nb1)"
      by (auto split: option.splits)
    from runOnce_observers[OF ro]
    have nb1: "mEventObserver nb1 = mEventObserver nb"
      "mUnexpectedEventObserver nb1 = mUnexpectedEventObserver nb" by simp_all
    show ?thesis
    proof (cases e1)
      case None
      with body False ro have "rl (tr @ tr1) nb1 = Some out" by simp
      from IH[OF this] nb1 show ?thesis by simp
    next
      case (Some x)
      with body False ro nb1 show ?thesis by auto
    qed
  qed
qed

lemma runOnce_when_stopped:
  "mStopped (mInotify nb) \<Longrightarrow> runOnce nb = Some (None, [], nb)"
  by (simp add: runOnce_def getNextEvent_def)

lemma run_when_stopped:
  "mStopped (mInotify nb) \<Longrightarrow> run nb = Some (None, [], nb)"
  by (simp add: run_def runLoop.simps hasStopped_def)

text \<open>
  C10: for every path argument, each of \<^verbatim>\<open>watchFile\<close>, \<^verbatim>\<open>watchPathRecursively\<close>,
  \<^verbatim>\<open>unwatchFile\<close>, \<^verbatim>\<open>ignoreFile\<close> and \<^verbatim>\<open>ignoreFileOnce\<close> hands back the builder it
  was called on with the event-observer map and the fallback unchanged, whether the call
  succeeds or throws. So do \<^verbatim>\<open>stop\<close>, \<^verbatim>\<open>runOnce\<close> and \<^verbatim>\<open>run\<close> when they return:
  only \<^verbatim>\<open>onEvent\<close>, \<^verbatim>\<open>onEvents\<close> and \<^verbatim>\<open>onUnexpectedEvent\<close> change the callback
  registrations, and they do.
\<close>

theorem only_registration_changes_observers:
  "sameRegistrations (snd (watchFile env p nb)) nb \<and>
   sameRegistrations (snd (watchPathRecursively env p nb)) nb \<and>
   sameRegistrations (snd (unwatchFile env p nb)) nb \<and>
   sameRegistrations (snd (ignoreFile env p nb)) nb \<and>
   sameRegistrations (snd (ignoreFileOnce env p nb)) nb \<and>
   sameRegistrations (stop nb) nb \<and>
   (\<forall>out. runOnce nb = Some out \<longrightarrow> sameRegistrations (snd (snd out)) nb) \<and>
   (\<forall>out. run nb = Some out \<longrightarrow> sameRegistrations (snd (snd out)) nb) \<and>
   mEventObserver (onEvent k f nb) k = Some f \<and>
   mEventObserver (onEvents (k # ks) f nb) k = Some f \<and>
   mUnexpectedEventObserver (onUnexpectedEvent f nb) = f"
  by (simp add: sameRegistrations_def watchFile_def watchPathRecursively_def unwatchFile_def
      ignoreFile_def ignoreFileOnce_def onInotify_observers stop_def runOnce_observers
      run_def runLoop_observers mEventObserver_onEvents onEvent_def onUnexpectedEvent_def)

theorem only_registration_changes_observers_witness:
  "runOnce (notifyingOnOpen [[onTestFile Event_open]]) =
     Some (None, [(''onOpen'', \<lparr>event = Event_open, path = testFile\<rparr>)], notifyingOnOpen []) \<and>
   sameRegistrations (notifyingOnOpen []) (notifyingOnOpen [[onTestFile Event_open]]) \<and>
   run (stop (notifyingOnOpen [])) = Some (None, [], stop (notifyingOnOpen [])) \<and>
   sameRegistrations (stop (notifyingOnOpen [])) (stop (notifyingOnOpen [])) \<and>
   sameRegistrations
     (snd (ignoreFile testEnv testFile (notifyingOnOpen []))) (notifyingOnOpen [])"
proof -
  have ran: "runOnce (notifyingOnOpen [[onTestFile Event_open]]) =
      Some (None, [(''onOpen'', \<lparr>event = Event_open, path = testFile\<rparr>)], notifyingOnOpen [])"
    by (simp add: runOnce_def fixture_defs reading_defs)
  have stopped: "run (stop (notifyingOnOpen [])) = Some (None, [], stop (notifyingOnOpen []))"
    by (rule run_when_stopped) (simp add: stop_def Inotify_stop_def)
  from only_registration_changes_observers
         [of testEnv testFile "notifyingOnOpen [[onTestFile Event_open]]"]
       only_registration_changes_observers [of testEnv testFile "stop (notifyingOnOpen [])"]
       only_registration_changes_observers [of testEnv testFile "notifyingOnOpen []"]
       ran stopped
  show ?thesis by simp
qed

section \<open>Registration that fails\<close>

text \<open>
  C4: for every path that does not exist when the call is made, \<^verbatim>\<open>watchFile\<close> and
  \<^verbatim>\<open>watchPathRecursively\<close> fail in the call itself with \<open>InvalidPathError\<close> and
  leave the notifier, and with it the watch table, as it was: no watch is installed.
\<close>

theorem watching_missing_path_fails:
  assumes "\<not> pathExists env p"
  shows "watchFile env p nb = (Some InvalidPathError, nb) \<and>
         watchPathRecursively env p nb = (Some InvalidPathError, nb)"
  using assms
  by (simp add: watchFile_def watchPathRecursively_def onInotify_def Inotify_watchFile_def
      Inotify_watchDirectoryRecursively_def)

theorem watching_missing_path_fails_witness:
  "\<not> pathExists testEnv ''/not/existing/file'' \<and>
   watchFile testEnv ''/not/existing/file'' (watchingTestFile []) =
     (Some InvalidPathError, watchingTestFile []) \<and>
   watchPathRecursively testEnv ''/not/existing/file'' (watchingTestFile []) =
     (Some InvalidPathError, watchingTestFile [])"
proof -
  have missing: "\<not> pathExists testEnv ''/not/existing/file''"
    by (simp add: testEnv_def testDirectory_def testFile_def)
  show ?thesis
    using missing watching_missing_path_fails [OF missing, of "watchingTestFile []"]
    by simp
qed

section \<open>Stopping\<close>

lemma WatchTable_add_stopped: "mStopped (snd (WatchTable_add env p i)) = mStopped i"
  by (simp add: WatchTable_add_def split: sum.splits)

lemma addWatches_stopped: "mStopped (snd (addWatches env ps i)) = mStopped i"
proof (induction ps arbitrary: i)
  case Nil
  show ?case by simp
next
  case (Cons p ps)
  show ?case
  proof (cases "WatchTable_add env p i")
    case (Pair e i')
    with WatchTable_add_stopped[of env p i] have i': "mStopped i' = mStopped i" by simp
    show ?thesis
    proof (cases e)
      case None
      with Pair Cons.IH[of i'] i' show ?thesis by simp
    next
      case (Some x)
      with Pair i' show ?thesis by simp
    qed
  qed
qed

lemma Inotify_calls_stopped:
  "mStopped (snd (Inotify_watchFile env p i)) = mStopped i"
  "mStopped (snd (Inotify_watchDirectoryRecursively env p i)) = mStopped i"
  "mStopped (snd (Inotify_unwatchFile env p i)) = mStopped i"
  "mStopped (snd (Inotify_ignoreFile env p i)) = mStopped i"
  "mStopped (snd (Inotify_ignoreFileOnce env p i)) = mStopped i"
proof -
  show "mStopped (snd (Inotify_watchFile env p i)) = mStopped i"
    by (simp add: Inotify_watchFile_def WatchTable_add_stopped)
  show "mStopped (snd (Inotify_watchDirectoryRecursively env p i)) = mStopped i"
    using addWatches_stopped[of env "p # nestedDirectories env p" i]
    by (auto simp: Inotify_watchDirectoryRecursively_def split: prod.splits option.splits)
  show "mStopped (snd (Inotify_unwatchFile env p i)) = mStopped i"
    by (simp add: Inotify_unwatchFile_def WatchTable_remove_def)
  show "mStopped (snd (Inotify_ignoreFile env p i)) = mStopped i"
    by (simp add: Inotify_ignoreFile_def ignorePermanently_def)
  show "mStopped (snd (Inotify_ignoreFileOnce env p i)) = mStopped i"
    by (simp add: Inotify_ignoreFileOnce_def ignoreOnce_def)
qed

lemma onInotify_mInotify: "mInotify (snd (onInotify f nb)) = snd (f (mInotify nb))"
  by (simp add: onInotify_def split: prod.splits)

lemma onEvents_stopped: "mStopped (mInotify (onEvents ks f nb)) = mStopped (mInotify nb)"
  by (induction ks arbitrary: nb) (simp_all add: setEventMask_def)

lemma perform_when_stopped:
  assumes "mStopped (mInotify nb)"
  shows "\<exists>nb'. perform c nb = Some nb' \<and> mStopped (mInotify nb')"
proof (cases c)
  case (OnEvents ks f)
  with assms show ?thesis by (simp add: onEvents_stopped)
qed (use assms in \<open>simp_all add: watchPathRecursively_def watchFile_def unwatchFile_def
      ignoreFileOnce_def ignoreFile_def onInotify_mInotify Inotify_calls_stopped onEvent_def
      setEventMask_def onUnexpectedEvent_def runOnce_when_stopped run_when_stopped stop_def
      Inotify_stop_def\<close>)

lemma performAll_when_stopped:
  assumes "mStopped (mInotify nb)"
  shows "\<exists>nb'. performAll cs nb = Some nb' \<and> mStopped (mInotify nb')"
  using assms
proof (induction cs arbitrary: nb)
  case Nil
  then show ?case by simp
next
  case (Cons c cs)
  from perform_when_stopped[OF Cons.prems, of c]
  obtain nb1 where "perform c nb = Some nb1" "mStopped (mInotify nb1)" by blast
  with Cons.IH[of nb1] show ?case by simp
qed

text \<open>
  C6: the stopped state is terminal. Once \<^verbatim>\<open>stop()\<close> has been called,
  \<^verbatim>\<open>hasStopped()\<close> holds, and it still holds after any sequence of later calls on the
  notifier, each of which returns; and \<^verbatim>\<open>run()\<close> then returns at once, with no
  invocation made and the notifier as it was. Nothing resumes the loop.
\<close>

theorem stopped_is_terminal:
  "hasStopped (mInotify (stop nb)) \<and>
   (\<exists>nb'. performAll cs (stop nb) = Some nb' \<and> hasStopped (mInotify nb') \<and>
          run nb' = Some (None, [], nb'))"
proof -
  have s: "mStopped (mInotify (stop nb))" by (simp add: stop_def Inotify_stop_def)
  from performAll_when_stopped[OF s, of cs]
  obtain nb' where "performAll cs (stop nb) = Some nb'" "mStopped (mInotify nb')" by blast
  with s show ?thesis by (simp add: hasStopped_def run_when_stopped)
qed

section \<open>Translation\<close>

text \<open>Translating touches nothing but the IgnoreRegistry.\<close>

lemma translate_fields:
  "watchTable (snd (translate r i)) = watchTable i \<and>
   mEventMask (snd (translate r i)) = mEventMask i \<and>
   mEventQueue (snd (translate r i)) = mEventQueue i \<and>
   mStopped (snd (translate r i)) = mStopped i \<and>
   eventSource (snd (translate r i)) = eventSource i"
  by (simp add: translate_def shouldSuppress_def split: option.splits IgnoreMode.splits)

lemma translate_watchTable: "watchTable (snd (translate r i)) = watchTable i"
  by (simp add: translate_fields)

lemma fullPath_cong: "watchTable i' = watchTable i \<Longrightarrow> fullPath i' r = fullPath i r"
  by (simp add: fullPath_def)

lemma firstDispatchable_fields':
  "watchTable (snd (snd (firstDispatchable rs i))) = watchTable i \<and>
   mEventMask (snd (snd (firstDispatchable rs i))) = mEventMask i \<and>
   mEventQueue (snd (snd (firstDispatchable rs i))) = mEventQueue i \<and>
   mStopped (snd (snd (firstDispatchable rs i))) = mStopped i \<and>
   eventSource (snd (snd (firstDispatchable rs i))) = eventSource i"
proof (induction rs arbitrary: i)
  case Nil
  show ?case by simp
next
  case (Cons r rs)
  obtain t i' where t: "translate r i = (t, i')" by (cases "translate r i")
  from translate_fields[of r i] t Cons[of i'] show ?case
    by (cases t) simp_all
qed

lemma firstDispatchable_fields:
  assumes "firstDispatchable rs i = (e, rest, i')"
  shows "watchTable i' = watchTable i" and "eventSource i' = eventSource i"
    and "mStopped i' = mStopped i" and "mEventQueue i' = mEventQueue i"
    and "mEventMask i' = mEventMask i"
  using firstDispatchable_fields'[of rs i] assms by simp_all

section \<open>Routing\<close>

lemma kindBits_powers: "kindBits = map (\<lambda>n. 2 ^ n) [0..<32]"
  unfolding kindBits_def by (simp add: upt_rec)

lemma firstSignalled_found:
  assumes "\<exists>k\<in>set ks. m AND k \<noteq> 0"
  shows "firstSignalled ks m \<in> set ks \<and> m AND firstSignalled ks m \<noteq> 0"
  using assms by (induction ks) auto

lemma nonzero_signals:
  fixes m :: "32 word"
  assumes "m \<noteq> 0"
  shows "\<exists>k\<in>set kindBits. m AND k \<noteq> 0"
proof -
  from assms obtain n where n: "bit m n" by (auto simp: bit_eq_iff)
  then have less: "n < 32" by (auto dest: bit_imp_le_length)
  have "bit (m AND 2 ^ n) n" using n less by (simp add: bit_and_iff bit_exp_iff)
  then have "m AND 2 ^ n \<noteq> 0" by auto
  with less show ?thesis by (auto simp: kindBits_powers)
qed

lemma primaryKind_single:
  assumes "m \<noteq> 0"
  shows "singleKind (primaryKind m) \<and> m AND primaryKind m \<noteq> 0"
  using firstSignalled_found[OF nonzero_signals[OF assms]]
  by (simp add: singleKind_def primaryKind_def)

lemma translate_Dispatchable:
  assumes "translate r i = (Dispatchable e, i')"
  shows "fullPath i r = Some (fse_path e) \<and> fse_mask e = primaryKind (rr_mask r)"
  using assms
  by (auto simp: translate_def shouldSuppress_def split: option.splits IgnoreMode.splits)

lemma firstDispatchable_from:
  assumes "firstDispatchable rs i = (Some e, rest, i')"
  shows "\<exists>r\<in>set rs. fullPath i r = Some (fse_path e) \<and> fse_mask e = primaryKind (rr_mask r)"
  using assms
proof (induction rs arbitrary: i)
  case Nil
  then show ?case by simp
next
  case (Cons r rs)
  obtain t i1 where t: "translate r i = (t, i1)" by (cases "translate r i")
  show ?case
  proof (cases t)
    case (Dispatchable e')
    with t Cons.prems have "e' = e" by simp
    with t Dispatchable translate_Dispatchable[of r i e i1] show ?thesis by simp
  next
    case Suppressed
    with t Cons.prems have "firstDispatchable rs i1 = (Some e, rest, i')" by simp
    from Cons.IH[OF this] translate_watchTable[of r i] t fullPath_cong[of i1 i]
    show ?thesis by auto
  next
    case Unresolvable
    with t Cons.prems have "firstDispatchable rs i1 = (Some e, rest, i')" by simp
    from Cons.IH[OF this] translate_watchTable[of r i] t fullPath_cong[of i1 i]
    show ?thesis by auto
  qed
qed

lemma getNextEvent_from:
  assumes "getNextEvent i = Some (Some e, i')"
  shows "\<exists>r\<in>set (pendingRecords i).
           fullPath i r = Some (fse_path e) \<and> fse_mask e = primaryKind (rr_mask r)"
proof -
  from assms have running: "\<not> mStopped i" by (auto simp: getNextEvent_def split: if_splits)
  obtain e1 rest1 i1 where q: "firstDispatchable (mEventQueue i) i = (e1, rest1, i1)"
    by (cases "firstDispatchable (mEventQueue i) i") auto
  show ?thesis
  proof (cases e1)
    case (Some x)
    with assms running q have "x = e" by (simp add: getNextEvent_def)
    with Some q firstDispatchable_from[of "mEventQueue i" i e rest1 i1] show ?thesis
      by (auto simp: pendingRecords_def)
  next
    case None
    have wt: "watchTable i1 = watchTable i" and es: "eventSource i1 = eventSource i"
      using firstDispatchable_fields[OF q] by simp_all
    from assms running q None obtain b bs where src: "eventSource i1 = b # bs"
      by (auto simp: getNextEvent_def split: list.splits)
    obtain rest2 i2 where
      b: "firstDispatchable b (i1\<lparr>eventSource := bs\<rparr>) = (Some e, rest2, i2)"
      using assms running q None src
      by (auto simp: getNextEvent_def split: prod.splits)
    from firstDispatchable_from[OF b]
    obtain r where r: "r \<in> set b" "fullPath (i1\<lparr>eventSource := bs\<rparr>) r = Some (fse_path e)"
      "fse_mask e = primaryKind (rr_mask r)" by blast
    have "fullPath i r = Some (fse_path e)"
      using r(2) wt by (simp add: fullPath_def)
    moreover have "r \<in> set (pendingRecords i)"
      using r(1) src es by (simp add: pendingRecords_def)
    ultimately show ?thesis using r(3) by blast
  qed
qed

lemma firstSignalled_in: "firstSignalled ks m = 0 \<or> firstSignalled ks m \<in> set ks"
  by (induction ks) auto

text \<open>
  C2: for every raw record, the notification the translation produces carries the
  record's primary kind, which is a single kind or, for a bitmask that signals nothing,
  none; never a combined value. Every event that \<^verbatim>\<open>runOnce\<close> obtains is such a
  translation, of a raw record that was pending and about the path that record resolves
  to; its kind is a single kind, one the bitmask signals, whenever the bitmask signals
  anything, however many kinds it signals. \<^verbatim>\<open>runOnce\<close> routes by exactly that kind:
  to the callback registered under it, else to the fallback, else to nobody.
  (\<^verbatim>\<open>runOnce\<close> itself takes the key from the member \<^verbatim>\<open>mask\<close> of the event as it is;
  that the member holds one kind is the translator's doing.)
\<close>

theorem routing_by_primary_kind:
  assumes "getNextEvent (mInotify nb) = Some (Some e, i')"
  shows "(\<forall>r i x i1. translate r i = (Dispatchable x, i1) \<longrightarrow>
            fse_mask x = primaryKind (rr_mask r) \<and> (fse_mask x = 0 \<or> singleKind (fse_mask x))) \<and>
         (\<exists>r\<in>set (pendingRecords (mInotify nb)).
            fullPath (mInotify nb) r = Some (fse_path e) \<and>
            fse_mask e = primaryKind (rr_mask r) \<and>
            (rr_mask r \<noteq> 0 \<longrightarrow> singleKind (fse_mask e) \<and> rr_mask r AND fse_mask e \<noteq> 0)) \<and>
         (fse_mask e = 0 \<or> singleKind (fse_mask e)) \<and>
         runOnce nb =
           Some (case mEventObserver nb (fse_mask e) of
                   None \<Rightarrow>
                     (None,
                      (case mUnexpectedEventObserver nb of
                         Some fallback \<Rightarrow> [(fallback, \<lparr>event = fse_mask e, path = fse_path e\<rparr>)]
                       | None \<Rightarrow> []),
                      nb\<lparr>mInotify := i'\<rparr>)
                 | Some None \<Rightarrow> (Some BadFunctionCall, [], nb\<lparr>mInotify := i'\<rparr>)
                 | Some (Some cb) \<Rightarrow>
                     (None, [(cb, \<lparr>event = fse_mask e, path = fse_path e\<rparr>)],
                      nb\<lparr>mInotify := i'\<rparr>))"
proof -
  from getNextEvent_from[OF assms]
  obtain r where r: "r \<in> set (pendingRecords (mInotify nb))"
    "fullPath (mInotify nb) r = Some (fse_path e)" "fse_mask e = primaryKind (rr_mask r)"
    by blast
  have single: "singleKind (fse_mask e) \<and> rr_mask r AND fse_mask e \<noteq> 0" if "rr_mask r \<noteq> 0"
    using primaryKind_single[OF that] r(3) by simp
  have never: "fse_mask e = 0 \<or> singleKind (fse_mask e)"
    using firstSignalled_in[of kindBits "rr_mask r"] r(3)
    by (simp add: primaryKind_def singleKind_def)
  have ran: "runOnce nb =
           Some (case mEventObserver nb (fse_mask e) of
                   None \<Rightarrow>
                     (None,
                      (case mUnexpectedEventObserver nb of
                         Some fallback \<Rightarrow> [(fallback, \<lparr>event = fse_mask e, path = fse_path e\<rparr>)]
                       | None \<Rightarrow> []),
                      nb\<lparr>mInotify := i'\<rparr>)
                 | Some None \<Rightarrow> (Some BadFunctionCall, [], nb\<lparr>mInotify := i'\<rparr>)
                 | Some (Some cb) \<Rightarrow>
                     (None, [(cb, \<lparr>event = fse_mask e, path = fse_path e\<rparr>)],
                      nb\<lparr>mInotify := i'\<rparr>))"
    using assms by (simp add: runOnce_def split: option.splits)
  have each: "fse_mask x = primaryKind (rr_mask r') \<and> (fse_mask x = 0 \<or> singleKind (fse_mask x))"
    if "translate r' i = (Dispatchable x, i1)" for r' i x i1
    using translate_Dispatchable[OF that] firstSignalled_in[of kindBits "rr_mask r'"]
    by (auto simp: primaryKind_def singleKind_def)
  from r single never have found: "\<exists>r\<in>set (pendingRecords (mInotify nb)).
            fullPath (mInotify nb) r = Some (fse_path e) \<and>
            fse_mask e = primaryKind (rr_mask r) \<and>
            (rr_mask r \<noteq> 0 \<longrightarrow> singleKind (fse_mask e) \<and> rr_mask r AND fse_mask e \<noteq> 0)"
    by blast
  from each found never ran show ?thesis by blast
qed

theorem routing_by_primary_kind_witness:
  "getNextEvent (mInotify (twoObservers [[onTestFile openAndCloseNoWrite]])) =
     Some (Some \<lparr>fse_mask = Event_close_nowrite, fse_path = testFile\<rparr>,
           mInotify (twoObservers [])) \<and>
   rr_mask (onTestFile openAndCloseNoWrite) = Event_open OR Event_close_nowrite \<and>
   singleKind Event_close_nowrite \<and>
   runOnce (twoObservers [[onTestFile openAndCloseNoWrite]]) =
     Some (None, [(''onCloseNoWrite'', \<lparr>event = Event_close_nowrite, path = testFile\<rparr>)],
           twoObservers [])"
proof -
  have pulled: "getNextEvent (mInotify (twoObservers [[onTestFile openAndCloseNoWrite]])) =
     Some (Some \<lparr>fse_mask = Event_close_nowrite, fse_path = testFile\<rparr>,
           mInotify (twoObservers []))"
    by (simp add: combined_defs fixture_defs reading_defs)
  from routing_by_primary_kind [OF pulled] pulled show ?thesis
    by (simp add: combined_defs fixture_defs pendingRecords_def)
qed

section \<open>Ignoring\<close>







































end
